theory Spec2Isabelle
  imports Main "HOL-Library.Word"
begin

section \<open>The AgentTask escrow ledger (contracts/AgentTask.sol)\<close>

text \<open>
  A shallow embedding of the Solidity contract \<^verbatim>\<open>AgentTask\<close>. Storage is a record of
  the three state variables; a Solidity \<^verbatim>\<open>mapping\<close> is a total function whose value at a
  key never written is the zero value of its type. Next to the storage the state holds the
  account balances the contract can move and the log of emitted events.

  Every external function returns \<open>error + state\<close>: \<open>Inl\<close> is a revert, \<open>Inr\<close> the
  state after a successful run. The transaction layer (\<open>transact\<close>, \<open>exec\<close>) gives a revert
  its meaning: the state before the call is kept.
\<close>

subsection \<open>Data\<close>

type_synonym uint256 = "256 word"
type_synonym address = "160 word"

text \<open>\<^verbatim>\<open>struct Task\<close>; the field \<^verbatim>\<open>id\<close> is \<open>task_id\<close> here (\<open>id\<close> is HOL's identity).\<close>

record Task =
  task_id :: uint256
  employer :: address
  agent :: address
  description :: string
  reward :: uint256
  submissionUrl :: string
  isSubmitted :: bool
  isApproved :: bool
  isCompleted :: bool

datatype event =
    TaskCreated uint256 address uint256 string
  | TaskSubmitted uint256 address string
  | TaskApproved uint256 address address uint256

text \<open>
  A revert carries the message of the failing \<^verbatim>\<open>require\<close>; \<open>Panic\<close> is the checked
  arithmetic of Solidity 0.8 (code \<open>0x11\<close> on overflow); \<open>TransferFailed\<close> is the revert of
  \<^verbatim>\<open>transfer\<close>; \<open>InsufficientBalance\<close> is a message call whose value the sender does not
  own, which the EVM refuses before any code of the contract runs.
\<close>

datatype error =
    Revert string
  | Panic nat
  | TransferFailed
  | InsufficientBalance

text \<open>The names the specification gives to the \<^verbatim>\<open>require\<close> messages of the source.\<close>

abbreviation InvalidReward :: error where
  "InvalidReward \<equiv> Revert ''Reward must be greater than 0''"
abbreviation InvalidDescription :: error where
  "InvalidDescription \<equiv> Revert ''Description cannot be empty''"
abbreviation TaskNotFound :: error where
  "TaskNotFound \<equiv> Revert ''Task does not exist''"
abbreviation AlreadyClaimed :: error where
  "AlreadyClaimed \<equiv> Revert ''Task already taken''"
abbreviation EmptySubmission :: error where
  "EmptySubmission \<equiv> Revert ''Submission URL cannot be empty''"
abbreviation Unauthorized :: error where
  "Unauthorized \<equiv> Revert ''Only employer can approve''"
abbreviation NotSubmitted :: error where
  "NotSubmitted \<equiv> Revert ''Task not submitted yet''"
abbreviation AlreadyApproved :: error where
  "AlreadyApproved \<equiv> Revert ''Task already approved''"
abbreviation NoAgent :: error where
  "NoAgent \<equiv> Revert ''No agent assigned''"

text \<open>\<^verbatim>\<open>msg.sender\<close> and \<^verbatim>\<open>msg.value\<close> of a call to a payable function.\<close>

record msg =
  msg_sender :: address
  msg_value :: uint256

text \<open>
  Balances are natural numbers of wei: an account balance of the EVM cannot overflow, so
  no wrap-around is modelled for it.
\<close>

record state =
  nextTaskId :: uint256
  tasks :: "uint256 \<Rightarrow> Task"
  employerTasks :: "address \<Rightarrow> uint256 list"
  balances :: "address \<Rightarrow> nat"
  events :: "event list"

text \<open>The address the contract is deployed at (\<^verbatim>\<open>CONTRACT_ADDRESS\<close> of the frontend).\<close>

definition CONTRACT_ADDRESS :: address where
  "CONTRACT_ADDRESS = 0xE077259edCAAFcc66b1Cf00157FDB886c72e3f7C"

text \<open>The zero value of \<^verbatim>\<open>Task\<close>: what a mapping slot holds before it is written.\<close>

definition zero_Task :: Task where
  "zero_Task = \<lparr>task_id = 0, employer = 0, agent = 0, description = [], reward = 0,
     submissionUrl = [], isSubmitted = False, isApproved = False, isCompleted = False\<rparr>"

text \<open>The state after deployment, with the balances \<open>b\<close> the chain has at that time.\<close>

definition init_state :: "(address \<Rightarrow> nat) \<Rightarrow> state" where
  "init_state b = \<lparr>nextTaskId = 0, tasks = (\<lambda>_. zero_Task), employerTasks = (\<lambda>_. []),
     balances = b, events = []\<rparr>"

subsection \<open>Value transfer\<close>

text \<open>
  A payable call moves \<^verbatim>\<open>msg.value\<close> from the sender to the contract before the function
  body runs; the EVM refuses the call when the sender owns less.
\<close>

definition receive_value :: "msg \<Rightarrow> state \<Rightarrow> error + state" where
  "receive_value m s =
     (if balances s (msg_sender m) < unat (msg_value m) then Inl InsufficientBalance
      else
        let b1 = (balances s)(msg_sender m := balances s (msg_sender m) - unat (msg_value m));
            b2 = b1(CONTRACT_ADDRESS := b1 CONTRACT_ADDRESS + unat (msg_value m))
        in Inr (s\<lparr>balances := b2\<rparr>))"

text \<open>
  \<^verbatim>\<open>payable(to).transfer(amount)\<close>: reverts when the contract owns less than \<open>amount\<close> or
  when the recipient does not accept the payment. \<open>accepts\<close> is the outcome of the call to
  the recipient, which runs on the 2300 gas stipend and therefore cannot write storage. The
  contract has no \<^verbatim>\<open>receive\<close> or \<^verbatim>\<open>fallback\<close> function, so a transfer to itself reverts.
\<close>

definition transfer :: "address \<Rightarrow> uint256 \<Rightarrow> bool \<Rightarrow> state \<Rightarrow> error + state" where
  "transfer to amount accepts s =
     (if balances s CONTRACT_ADDRESS < unat amount then Inl TransferFailed
      else if to = CONTRACT_ADDRESS then Inl TransferFailed
      else if \<not> accepts then Inl TransferFailed
      else
        let b1 = (balances s)(CONTRACT_ADDRESS := balances s CONTRACT_ADDRESS - unat amount);
            b2 = b1(to := b1 to + unat amount)
        in Inr (s\<lparr>balances := b2\<rparr>))"

subsection \<open>The external functions\<close>

definition createTask :: "msg \<Rightarrow> string \<Rightarrow> state \<Rightarrow> error + state" where
  "createTask m descr s =
     (if \<not> msg_value m > 0 then Inl (Revert ''Reward must be greater than 0'')
      else if \<not> length descr > 0 then Inl (Revert ''Description cannot be empty'')
      else
        let newTask = \<lparr>task_id = nextTaskId s, employer = msg_sender m, agent = 0,
              description = descr, reward = msg_value m, submissionUrl = [],
              isSubmitted = False, isApproved = False, isCompleted = False\<rparr>;
            s1 = s\<lparr>tasks := (tasks s)(nextTaskId s := newTask)\<rparr>;
            s2 = s1\<lparr>employerTasks := (employerTasks s1)
                   (msg_sender m := employerTasks s1 (msg_sender m) @ [nextTaskId s1])\<rparr>;
            s3 = s2\<lparr>events := events s2 @
                   [TaskCreated (nextTaskId s2) (msg_sender m) (msg_value m) descr]\<rparr>
        in if nextTaskId s3 + 1 = 0 then Inl (Panic 0x11)
           else Inr (s3\<lparr>nextTaskId := nextTaskId s3 + 1\<rparr>))"

text \<open>
  \<^verbatim>\<open>submitTask\<close> and \<^verbatim>\<open>approveTask\<close> are not payable: their bodies run only for calls
  that carry no value, so a call is its sender alone.
\<close>

definition submitTask :: "address \<Rightarrow> uint256 \<Rightarrow> string \<Rightarrow> state \<Rightarrow> error + state" where
  "submitTask sender taskId url s =
     (let task = tasks s taskId in
      if \<not> taskId < nextTaskId s then Inl (Revert ''Task does not exist'')
      else if \<not> agent task = 0 then Inl (Revert ''Task already taken'')
      else if \<not> length url > 0 then Inl (Revert ''Submission URL cannot be empty'')
      else
        let task1 = task\<lparr>agent := sender\<rparr>;
            task2 = task1\<lparr>submissionUrl := url\<rparr>;
            task3 = task2\<lparr>isSubmitted := True\<rparr>
        in Inr (s\<lparr>tasks := (tasks s)(taskId := task3),
                  events := events s @ [TaskSubmitted taskId sender url]\<rparr>))"

definition approveTask :: "address \<Rightarrow> uint256 \<Rightarrow> bool \<Rightarrow> state \<Rightarrow> error + state" where
  "approveTask sender taskId accepts s =
     (let task = tasks s taskId in
      if \<not> taskId < nextTaskId s then Inl (Revert ''Task does not exist'')
      else if \<not> sender = employer task then Inl (Revert ''Only employer can approve'')
      else if \<not> isSubmitted task then Inl (Revert ''Task not submitted yet'')
      else if \<not> \<not> isApproved task then Inl (Revert ''Task already approved'')
      else if \<not> agent task \<noteq> 0 then Inl (Revert ''No agent assigned'')
      else
        let task1 = task\<lparr>isApproved := True\<rparr>;
            task2 = task1\<lparr>isCompleted := True\<rparr>;
            s1 = s\<lparr>tasks := (tasks s)(taskId := task2)\<rparr>
        in case transfer (agent task2) (reward task2) accepts s1 of
             Inl e \<Rightarrow> Inl e
           | Inr s2 \<Rightarrow>
               Inr (s2\<lparr>events := events s2 @
                     [TaskApproved taskId sender (agent task2) (reward task2)]\<rparr>))"

subsection \<open>The queries\<close>

definition getTask :: "uint256 \<Rightarrow> state \<Rightarrow> error + Task" where
  "getTask taskId s =
     (if \<not> taskId < nextTaskId s then Inl (Revert ''Task does not exist'')
      else Inr (tasks s taskId))"

definition getEmployerTasks :: "address \<Rightarrow> state \<Rightarrow> uint256 list" where
  "getEmployerTasks a s = employerTasks s a"

definition getTotalTasks :: "state \<Rightarrow> uint256" where
  "getTotalTasks s = nextTaskId s"

text \<open>
  The getter Solidity generates for \<^verbatim>\<open>mapping(uint256 => Task) public tasks\<close>: it has no
  \<^verbatim>\<open>require\<close> and returns the members of the slot in declaration order (the nine-element
  array the frontend's \<^verbatim>\<open>fetchAllTasks\<close> reads).
\<close>

type_synonym task_tuple =
  "uint256 \<times> address \<times> address \<times> string \<times> uint256 \<times> string \<times> bool \<times> bool \<times> bool"

definition tasks_getter :: "uint256 \<Rightarrow> state \<Rightarrow> error + task_tuple" where
  "tasks_getter taskId s =
     (let t = tasks s taskId in
      Inr (task_id t, employer t, agent t, description t, reward t, submissionUrl t,
           isSubmitted t, isApproved t, isCompleted t))"

subsection \<open>Transactions\<close>

text \<open>
  A transaction that reverts leaves no trace in the state: every write of the reverted
  call, to storage, balances and the log, is discarded.
\<close>

definition transact :: "(state \<Rightarrow> error + state) \<Rightarrow> state \<Rightarrow> error option \<times> state" where
  "transact f s = (case f s of Inl e \<Rightarrow> (Some e, s) | Inr s' \<Rightarrow> (None, s'))"

datatype op =
    Create msg string
  | Submit address uint256 string
  | Approve address uint256 bool

fun call :: "op \<Rightarrow> state \<Rightarrow> error + state" where
  "call (Create m descr) s =
     (case receive_value m s of Inl e \<Rightarrow> Inl e | Inr s0 \<Rightarrow> createTask m descr s0)"
| "call (Submit sender taskId url) s = submitTask sender taskId url s"
| "call (Approve sender taskId accepts) s = approveTask sender taskId accepts s"

definition exec :: "op \<Rightarrow> state \<Rightarrow> state" where
  "exec c s = snd (transact (call c) s)"

fun run :: "op list \<Rightarrow> state \<Rightarrow> state" where
  "run [] s = s"
| "run (c # cs) s = run cs (exec c s)"

text \<open>
  The sender of a transaction is never the zero address: a sender is recovered from a
  signature, and nobody holds a key of address zero.
\<close>

fun caller :: "op \<Rightarrow> address" where
  "caller (Create m descr) = msg_sender m"
| "caller (Submit sender taskId url) = sender"
| "caller (Approve sender taskId accepts) = sender"

definition wf_op :: "op \<Rightarrow> bool" where
  "wf_op c = (caller c \<noteq> 0)"

text \<open>
  The states the contract can be in are \<open>run cs (init_state b)\<close>: the transactions
  \<open>cs\<close> applied in their order to the state after deployment.
\<close>

subsection \<open>A concrete history\<close>

text \<open>
  The end-to-end scenario of the specification: account 1 owns 1000 wei and creates a task
  with reward 100 and description \<open>X\<close>; account 2 submits \<open>http://a\<close>; account 1
  approves.
\<close>

definition demo_funds :: "address \<Rightarrow> nat" where
  "demo_funds a = (if a = 1 then 1000 else 0)"

definition demo_create :: op where
  "demo_create = Create \<lparr>msg_sender = 1, msg_value = 100\<rparr> ''X''"

definition demo_created :: state where
  "demo_created = run [demo_create] (init_state demo_funds)"

definition demo_submitted :: state where
  "demo_submitted = run [demo_create, Submit 2 0 ''http://a''] (init_state demo_funds)"

definition demo_approved :: state where
  "demo_approved =
     run [demo_create, Submit 2 0 ''http://a'', Approve 1 0 True] (init_state demo_funds)"

text \<open>A submission sent from the zero address, which no transaction can carry.\<close>

definition demo_zero_agent :: state where
  "demo_zero_agent = run [demo_create, Submit 0 0 ''http://a''] (init_state demo_funds)"

section \<open>Evaluating the concrete history\<close>

lemma demo_created_eq:
  "demo_created = \<lparr>nextTaskId = 1,
     tasks = (\<lambda>_. zero_Task)(0 := \<lparr>task_id = 0, employer = 1, agent = 0,
        description = ''X'', reward = 100, submissionUrl = [], isSubmitted = False,
        isApproved = False, isCompleted = False\<rparr>),
     employerTasks = (\<lambda>_. [])(1 := [0]),
     balances = (demo_funds(1 := 900))(CONTRACT_ADDRESS := 100),
     events = [TaskCreated 0 1 100 ''X'']\<rparr>"
  by (simp add: demo_created_def demo_create_def exec_def transact_def receive_value_def
      createTask_def init_state_def demo_funds_def CONTRACT_ADDRESS_def Let_def)

lemma demo_submitted_run: "demo_submitted = exec (Submit 2 0 ''http://a'') demo_created"
  by (simp add: demo_submitted_def demo_created_def)

lemma demo_submitted_eq:
  "demo_submitted = \<lparr>nextTaskId = 1,
     tasks = (\<lambda>_. zero_Task)(0 := \<lparr>task_id = 0, employer = 1, agent = 2,
        description = ''X'', reward = 100, submissionUrl = ''http://a'', isSubmitted = True,
        isApproved = False, isCompleted = False\<rparr>),
     employerTasks = (\<lambda>_. [])(1 := [0]),
     balances = (demo_funds(1 := 900))(CONTRACT_ADDRESS := 100),
     events = [TaskCreated 0 1 100 ''X'', TaskSubmitted 0 2 ''http://a'']\<rparr>"
  by (simp add: demo_submitted_run demo_created_eq exec_def transact_def submitTask_def
      Let_def)

lemma demo_approved_run: "demo_approved = exec (Approve 1 0 True) demo_submitted"
  by (simp add: demo_submitted_def demo_approved_def)

lemma demo_approved_eq:
  "demo_approved = \<lparr>nextTaskId = 1,
     tasks = (\<lambda>_. zero_Task)(0 := \<lparr>task_id = 0, employer = 1, agent = 2,
        description = ''X'', reward = 100, submissionUrl = ''http://a'', isSubmitted = True,
        isApproved = True, isCompleted = True\<rparr>),
     employerTasks = (\<lambda>_. [])(1 := [0]),
     balances = ((demo_funds(1 := 900))(CONTRACT_ADDRESS := 0))(2 := 100),
     events = [TaskCreated 0 1 100 ''X'', TaskSubmitted 0 2 ''http://a'',
               TaskApproved 0 1 2 100]\<rparr>"
  by (simp add: demo_approved_run demo_submitted_eq exec_def transact_def approveTask_def
      transfer_def Let_def CONTRACT_ADDRESS_def demo_funds_def)

lemma demo_zero_agent_run: "demo_zero_agent = exec (Submit 0 0 ''http://a'') demo_created"
  by (simp add: demo_zero_agent_def demo_created_def)

lemma demo_zero_agent_eq:
  "demo_zero_agent = \<lparr>nextTaskId = 1,
     tasks = (\<lambda>_. zero_Task)(0 := \<lparr>task_id = 0, employer = 1, agent = 0,
        description = ''X'', reward = 100, submissionUrl = ''http://a'', isSubmitted = True,
        isApproved = False, isCompleted = False\<rparr>),
     employerTasks = (\<lambda>_. [])(1 := [0]),
     balances = (demo_funds(1 := 900))(CONTRACT_ADDRESS := 100),
     events = [TaskCreated 0 1 100 ''X'', TaskSubmitted 0 0 ''http://a'']\<rparr>"
  by (simp add: demo_zero_agent_run demo_created_eq exec_def transact_def submitTask_def
      Let_def)

lemma demo_create_ok: "call demo_create (init_state demo_funds) = Inr demo_created"
  by (simp add: demo_created_eq, simp add: demo_create_def receive_value_def
      createTask_def init_state_def demo_funds_def CONTRACT_ADDRESS_def Let_def)

lemma demo_submit_ok: "submitTask 2 0 ''http://a'' demo_created = Inr demo_submitted"
  by (simp add: demo_submitted_eq, simp add: demo_created_eq submitTask_def Let_def)

lemma demo_approve_ok: "approveTask 1 0 True demo_submitted = Inr demo_approved"
  by (simp add: demo_approved_eq, simp add: demo_submitted_eq approveTask_def transfer_def
      Let_def CONTRACT_ADDRESS_def demo_funds_def)

lemma demo_approve_refused: "approveTask 1 0 False demo_submitted = Inl TransferFailed"
  by (simp add: demo_submitted_eq approveTask_def transfer_def
      Let_def CONTRACT_ADDRESS_def demo_funds_def)

section \<open>What a successful call does\<close>

lemma word_inc_less: "(x::'a::len word) + 1 \<noteq> 0 \<Longrightarrow> x < x + 1"
  by (simp add: word_less_nat_alt unatSuc add.commute)

lemma word_less_inc_iff: "(x::'a::len word) + 1 \<noteq> 0 \<Longrightarrow> y < x + 1 \<longleftrightarrow> y \<le> x"
  by (simp add: word_less_nat_alt word_le_nat_alt unatSuc add.commute less_Suc_eq_le)

lemma unat_inc: "(x::'a::len word) + 1 \<noteq> 0 \<Longrightarrow> unat (x + 1) = unat x + 1"
  by (simp add: unatSuc add.commute)

lemma createTask_Inr:
  assumes "createTask m descr s = Inr s'"
  shows "0 < msg_value m" and "descr \<noteq> []" and "nextTaskId s + 1 \<noteq> 0"
    and "s' = s\<lparr>tasks := (tasks s)(nextTaskId s :=
              \<lparr>task_id = nextTaskId s, employer = msg_sender m, agent = 0,
               description = descr, reward = msg_value m, submissionUrl = [],
               isSubmitted = False, isApproved = False, isCompleted = False\<rparr>),
            employerTasks := (employerTasks s)
              (msg_sender m := employerTasks s (msg_sender m) @ [nextTaskId s]),
            events := events s @ [TaskCreated (nextTaskId s) (msg_sender m) (msg_value m) descr],
            nextTaskId := nextTaskId s + 1\<rparr>"
  using assms by (auto simp: createTask_def Let_def split: if_splits)

lemma submitTask_Inr:
  assumes "submitTask c taskId url s = Inr s'"
  shows "taskId < nextTaskId s" and "agent (tasks s taskId) = 0" and "url \<noteq> []"
    and "s' = s\<lparr>tasks := (tasks s)(taskId :=
              (tasks s taskId)\<lparr>agent := c, submissionUrl := url, isSubmitted := True\<rparr>),
            events := events s @ [TaskSubmitted taskId c url]\<rparr>"
  using assms by (auto simp: submitTask_def Let_def split: if_splits)

lemma approveTask_Inr:
  assumes "approveTask c taskId accepts s = Inr s'"
  shows "taskId < nextTaskId s" and "c = employer (tasks s taskId)"
    and "isSubmitted (tasks s taskId)" and "\<not> isApproved (tasks s taskId)"
    and "agent (tasks s taskId) \<noteq> 0"
    and "unat (reward (tasks s taskId)) \<le> balances s CONTRACT_ADDRESS"
    and "agent (tasks s taskId) \<noteq> CONTRACT_ADDRESS" and "accepts"
    and "s' = s\<lparr>tasks := (tasks s)(taskId :=
              (tasks s taskId)\<lparr>isApproved := True, isCompleted := True\<rparr>),
            balances := (balances s)
              (CONTRACT_ADDRESS := balances s CONTRACT_ADDRESS - unat (reward (tasks s taskId)),
               agent (tasks s taskId) :=
                 balances s (agent (tasks s taskId)) + unat (reward (tasks s taskId))),
            events := events s @ [TaskApproved taskId c (agent (tasks s taskId))
                                    (reward (tasks s taskId))]\<rparr>"
  using assms
  by (auto simp: approveTask_def transfer_def Let_def split: if_splits sum.splits)

lemma receive_value_Inr:
  assumes "receive_value m s = Inr s0"
  shows "unat (msg_value m) \<le> balances s (msg_sender m)"
    and "nextTaskId s0 = nextTaskId s" and "tasks s0 = tasks s"
    and "employerTasks s0 = employerTasks s" and "events s0 = events s"
  using assms by (auto simp: receive_value_def Let_def split: if_splits)

lemma call_Create_Inr:
  assumes "call (Create m descr) s = Inr s'"
  obtains s0 where "receive_value m s = Inr s0" and "createTask m descr s0 = Inr s'"
  using assms by (cases "receive_value m s") simp_all

text \<open>The storage after each successful call, read off the three lemmas above.\<close>

lemma call_Create_storage:
  assumes "call (Create m descr) s = Inr s'"
  shows "nextTaskId s + 1 \<noteq> 0" and "nextTaskId s' = nextTaskId s + 1"
    and "tasks s' = (tasks s)(nextTaskId s :=
              \<lparr>task_id = nextTaskId s, employer = msg_sender m, agent = 0,
               description = descr, reward = msg_value m, submissionUrl = [],
               isSubmitted = False, isApproved = False, isCompleted = False\<rparr>)"
    and "employerTasks s' = (employerTasks s)
              (msg_sender m := employerTasks s (msg_sender m) @ [nextTaskId s])"
proof -
  from assms obtain s0 where r: "receive_value m s = Inr s0"
    and c: "createTask m descr s0 = Inr s'"
    by (rule call_Create_Inr)
  note rs = receive_value_Inr[OF r] and cs = createTask_Inr[OF c]
  show "nextTaskId s + 1 \<noteq> 0" using cs(3) rs(2) by simp
  show "nextTaskId s' = nextTaskId s + 1" using cs(4) rs(2) by simp
  show "tasks s' = (tasks s)(nextTaskId s :=
              \<lparr>task_id = nextTaskId s, employer = msg_sender m, agent = 0,
               description = descr, reward = msg_value m, submissionUrl = [],
               isSubmitted = False, isApproved = False, isCompleted = False\<rparr>)"
    using cs(4) rs(2,3) by simp
  show "employerTasks s' = (employerTasks s)
              (msg_sender m := employerTasks s (msg_sender m) @ [nextTaskId s])"
    using cs(4) rs(2,4) by simp
qed

lemma submitTask_storage:
  assumes "submitTask c taskId url s = Inr s'"
  shows "nextTaskId s' = nextTaskId s"
    and "tasks s' = (tasks s)(taskId :=
              (tasks s taskId)\<lparr>agent := c, submissionUrl := url, isSubmitted := True\<rparr>)"
    and "employerTasks s' = employerTasks s" and "balances s' = balances s"
  by (subst submitTask_Inr(4)[OF assms], simp)+

lemma approveTask_storage:
  assumes "approveTask c taskId accepts s = Inr s'"
  shows "nextTaskId s' = nextTaskId s"
    and "tasks s' = (tasks s)(taskId :=
              (tasks s taskId)\<lparr>isApproved := True, isCompleted := True\<rparr>)"
    and "employerTasks s' = employerTasks s"
    and "balances s' = (balances s)
              (CONTRACT_ADDRESS := balances s CONTRACT_ADDRESS - unat (reward (tasks s taskId)),
               agent (tasks s taskId) :=
                 balances s (agent (tasks s taskId)) + unat (reward (tasks s taskId)))"
  by (subst approveTask_Inr(9)[OF assms], simp)+

text \<open>
  One transaction either leaves the state as it was (the call reverted) or is one of the
  three successful calls.
\<close>

lemma exec_storage [case_names reverted created submitted approved]:
  obtains "exec c s = s"
  | m descr where "c = Create m descr" and "call (Create m descr) s = Inr (exec c s)"
  | a j url where "c = Submit a j url" and "submitTask a j url s = Inr (exec c s)"
  | a j acc where "c = Approve a j acc" and "approveTask a j acc s = Inr (exec c s)"
proof (cases "call c s")
  case (Inl e)
  then have "exec c s = s" by (simp add: exec_def transact_def)
  then show ?thesis by (rule that(1))
next
  case (Inr s')
  then have e: "exec c s = s'" by (simp add: exec_def transact_def)
  show ?thesis
  proof (cases c)
    case (Create m descr)
    with Inr e show ?thesis by (intro that(2)[of m descr]) simp_all
  next
    case (Submit a j url)
    with Inr e show ?thesis by (intro that(3)[of a j url]) simp_all
  next
    case (Approve a j acc)
    with Inr e show ?thesis by (intro that(4)[of a j acc]) simp_all
  qed
qed

section \<open>What later transactions keep\<close>

lemma exec_task_stable:
  assumes lt: "taskId < nextTaskId s"
  shows "taskId < nextTaskId (exec c s)
    \<and> task_id (tasks (exec c s) taskId) = task_id (tasks s taskId)
    \<and> employer (tasks (exec c s) taskId) = employer (tasks s taskId)
    \<and> description (tasks (exec c s) taskId) = description (tasks s taskId)
    \<and> reward (tasks (exec c s) taskId) = reward (tasks s taskId)
    \<and> (isSubmitted (tasks s taskId) \<longrightarrow> isSubmitted (tasks (exec c s) taskId))
    \<and> (isApproved (tasks s taskId) \<longrightarrow> isApproved (tasks (exec c s) taskId))
    \<and> (isCompleted (tasks s taskId) \<longrightarrow> isCompleted (tasks (exec c s) taskId))
    \<and> (agent (tasks s taskId) \<noteq> 0 \<longrightarrow>
         agent (tasks (exec c s) taskId) = agent (tasks s taskId)
       \<and> submissionUrl (tasks (exec c s) taskId) = submissionUrl (tasks s taskId))"
proof (cases c s rule: exec_storage)
  case reverted
  with lt show ?thesis by simp
next
  case (created m descr)
  note st = call_Create_storage[OF created(2)]
  have "taskId \<noteq> nextTaskId s" using lt by auto
  moreover have "taskId < nextTaskId s + 1" using lt st(1) by (simp add: word_less_inc_iff)
  ultimately show ?thesis using st(2,3) by simp
next
  case (submitted a j url)
  note st = submitTask_storage[OF submitted(2)]
  show ?thesis using lt st(1,2) submitTask_Inr(2)[OF submitted(2)] by auto
next
  case (approved a j acc)
  note st = approveTask_storage[OF approved(2)]
  show ?thesis using lt st(1,2) by auto
qed

lemma run_task_stable:
  "taskId < nextTaskId s \<Longrightarrow>
     taskId < nextTaskId (run cs s)
   \<and> task_id (tasks (run cs s) taskId) = task_id (tasks s taskId)
   \<and> employer (tasks (run cs s) taskId) = employer (tasks s taskId)
   \<and> description (tasks (run cs s) taskId) = description (tasks s taskId)
   \<and> reward (tasks (run cs s) taskId) = reward (tasks s taskId)
   \<and> (isSubmitted (tasks s taskId) \<longrightarrow> isSubmitted (tasks (run cs s) taskId))
   \<and> (isApproved (tasks s taskId) \<longrightarrow> isApproved (tasks (run cs s) taskId))
   \<and> (isCompleted (tasks s taskId) \<longrightarrow> isCompleted (tasks (run cs s) taskId))
   \<and> (agent (tasks s taskId) \<noteq> 0 \<longrightarrow>
        agent (tasks (run cs s) taskId) = agent (tasks s taskId)
      \<and> submissionUrl (tasks (run cs s) taskId) = submissionUrl (tasks s taskId))"
proof (induction cs arbitrary: s)
  case Nil
  then show ?case by simp
next
  case (Cons c cs)
  note one = exec_task_stable[OF Cons.prems, of c]
  then have "taskId < nextTaskId (exec c s)" by simp
  from Cons.IH[OF this] one show ?case by simp
qed

text \<open>
  Only a \<open>submitTask\<close> on the task writes its submission fields, and only an
  \<open>approveTask\<close> on the task writes its approval flags.
\<close>

lemma exec_frame:
  assumes lt: "taskId < nextTaskId s"
  shows "((\<forall>a url. c \<noteq> Submit a taskId url) \<longrightarrow>
           agent (tasks (exec c s) taskId) = agent (tasks s taskId)
         \<and> submissionUrl (tasks (exec c s) taskId) = submissionUrl (tasks s taskId)
         \<and> isSubmitted (tasks (exec c s) taskId) = isSubmitted (tasks s taskId))
     \<and> ((\<forall>a acc. c \<noteq> Approve a taskId acc) \<longrightarrow>
           isApproved (tasks (exec c s) taskId) = isApproved (tasks s taskId)
         \<and> isCompleted (tasks (exec c s) taskId) = isCompleted (tasks s taskId))"
proof (cases c s rule: exec_storage)
  case reverted
  then show ?thesis by simp
next
  case (created m descr)
  have "taskId \<noteq> nextTaskId s" using lt by auto
  then show ?thesis using call_Create_storage(3)[OF created(2)] by simp
next
  case (submitted a j url)
  show ?thesis using submitted(1) submitTask_storage(2)[OF submitted(2)] by auto
next
  case (approved a j acc)
  show ?thesis using approved(1) approveTask_storage(2)[OF approved(2)] by auto
qed

section \<open>Invariants of the reachable states\<close>

text \<open>
  A property of states that holds after deployment and that every transaction (with a
  sender satisfying \<open>Q\<close>) keeps, holds after every history.
\<close>

lemma run_invariant:
  assumes "P s" and "\<And>c s. P s \<Longrightarrow> Q c \<Longrightarrow> P (exec c s)" and "list_all Q cs"
  shows "P (run cs s)"
  using assms(1,3) by (induction cs arbitrary: s) (auto intro: assms(2))

lemma exec_flags_inv:
  assumes "\<forall>i. (isApproved (tasks s i) \<longrightarrow> isSubmitted (tasks s i))
            \<and> (isCompleted (tasks s i) \<longrightarrow> isApproved (tasks s i))"
  shows "\<forall>i. (isApproved (tasks (exec c s) i) \<longrightarrow> isSubmitted (tasks (exec c s) i))
            \<and> (isCompleted (tasks (exec c s) i) \<longrightarrow> isApproved (tasks (exec c s) i))"
proof (cases c s rule: exec_storage)
  case reverted
  with assms show ?thesis by simp
next
  case (created m descr)
  show ?thesis using call_Create_storage(3)[OF created(2)] assms by simp
next
  case (submitted a j url)
  show ?thesis using submitTask_storage(2)[OF submitted(2)] assms by simp
next
  case (approved a j acc)
  show ?thesis
    using approveTask_storage(2)[OF approved(2)] approveTask_Inr(3)[OF approved(2)] assms
    by simp
qed

lemma exec_agent_inv:
  assumes inv: "\<forall>i. agent (tasks s i) = 0 \<longleftrightarrow> \<not> isSubmitted (tasks s i)"
    and wf: "wf_op c"
  shows "\<forall>i. agent (tasks (exec c s) i) = 0 \<longleftrightarrow> \<not> isSubmitted (tasks (exec c s) i)"
proof (cases c s rule: exec_storage)
  case reverted
  with inv show ?thesis by simp
next
  case (created m descr)
  show ?thesis using call_Create_storage(3)[OF created(2)] inv by simp
next
  case (submitted a j url)
  have "a \<noteq> 0" using wf submitted(1) by (simp add: wf_op_def)
  then show ?thesis using submitTask_storage(2)[OF submitted(2)] inv by simp
next
  case (approved a j acc)
  show ?thesis using approveTask_storage(2)[OF approved(2)] inv by simp
qed

lemma exec_unwritten:
  assumes "\<forall>i. \<not> i < nextTaskId s \<longrightarrow> tasks s i = zero_Task"
  shows "\<forall>i. \<not> i < nextTaskId (exec c s) \<longrightarrow> tasks (exec c s) i = zero_Task"
proof (cases c s rule: exec_storage)
  case reverted
  with assms show ?thesis by simp
next
  case (created m descr)
  note st = call_Create_storage[OF created(2)]
  show ?thesis
  proof (intro allI impI)
    fix i assume "\<not> i < nextTaskId (exec c s)"
    then have "\<not> i \<le> nextTaskId s" using st(1,2) by (simp add: word_less_inc_iff)
    then have "i \<noteq> nextTaskId s" "\<not> i < nextTaskId s" by auto
    then show "tasks (exec c s) i = zero_Task" using st(3) assms by simp
  qed
next
  case (submitted a j url)
  note st = submitTask_storage[OF submitted(2)]
  show ?thesis using st(1,2) submitTask_Inr(1)[OF submitted(2)] assms by auto
next
  case (approved a j acc)
  note st = approveTask_storage[OF approved(2)]
  show ?thesis using st(1,2) approveTask_Inr(1)[OF approved(2)] assms by auto
qed

lemma init_unwritten:
  "\<not> i < nextTaskId (run cs (init_state b)) \<longrightarrow> tasks (run cs (init_state b)) i = zero_Task"
proof -
  have "\<forall>i. \<not> i < nextTaskId (run cs (init_state b))
      \<longrightarrow> tasks (run cs (init_state b)) i = zero_Task"
  proof (rule run_invariant[where Q = "\<lambda>_. True"
        and P = "\<lambda>s. \<forall>i. \<not> i < nextTaskId s \<longrightarrow> tasks s i = zero_Task"])
    show "\<forall>i. \<not> i < nextTaskId (init_state b) \<longrightarrow> tasks (init_state b) i = zero_Task"
      by (simp add: init_state_def)
  qed (simp_all add: exec_unwritten list_all_iff)
  then show ?thesis by blast
qed

subsection \<open>The ids created so far, in order\<close>

lemma unat_of_nat_below:
  "k < unat (n::'a::len word) \<Longrightarrow> unat (word_of_nat k :: 'a word) = k"
proof -
  assume "k < unat n"
  moreover have "unat n < 2 ^ LENGTH('a)" by simp
  ultimately have "k < 2 ^ LENGTH('a)" by (rule less_trans)
  then show ?thesis by (simp add: unat_of_nat)
qed

lemma set_ids_below:
  "set (map word_of_nat [0..<unat (n::'a::len word)]) = {i::'a word. i < n}"
proof (intro set_eqI iffI)
  fix i :: "'a word"
  assume "i \<in> set (map word_of_nat [0..<unat n])"
  then obtain k where k: "k < unat n" "i = word_of_nat k" by auto
  then have "unat i = k" by (simp add: unat_of_nat_below)
  with k(1) show "i \<in> {i. i < n}" by (simp add: word_less_nat_alt)
next
  fix i :: "'a word"
  assume "i \<in> {i. i < n}"
  then have "unat i < unat n" by (simp add: word_less_nat_alt)
  moreover have "word_of_nat (unat i) = i" by simp
  ultimately show "i \<in> set (map word_of_nat [0..<unat n])"
    by (auto simp: image_iff intro!: bexI[of _ "unat i"])
qed

lemma sorted_ids_below:
  "sorted_wrt (<) (map word_of_nat [0..<unat (n::'a::len word)] :: 'a word list)"
proof -
  have "sorted_wrt (\<lambda>x y. (word_of_nat x :: 'a word) < word_of_nat y) [0..<unat n]"
  proof (rule sorted_wrt_mono_rel[of _ "(<)"])
    fix x y
    assume "x \<in> set [0..<unat n]" "y \<in> set [0..<unat n]" "x < y"
    then have "x < unat n" "y < unat n" by simp_all
    then have "unat (word_of_nat x :: 'a word) = x" "unat (word_of_nat y :: 'a word) = y"
      by (simp_all add: unat_of_nat_below)
    with \<open>x < y\<close> show "(word_of_nat x :: 'a word) < word_of_nat y"
      by (simp add: word_less_nat_alt)
  next
    show "sorted_wrt (<) [0..<unat n]" by simp
  qed
  then show ?thesis by (simp add: sorted_wrt_map)
qed

lemma exec_index_inv:
  assumes inv: "\<forall>a. employerTasks s a =
      filter (\<lambda>i. employer (tasks s i) = a) (map word_of_nat [0..<unat (nextTaskId s)])"
  shows "\<forall>a. employerTasks (exec c s) a =
      filter (\<lambda>i. employer (tasks (exec c s) i) = a)
        (map word_of_nat [0..<unat (nextTaskId (exec c s))])"
proof (cases c s rule: exec_storage)
  case reverted
  with inv show ?thesis by simp
next
  case (created m descr)
  note st = call_Create_storage[OF created(2)]
  let ?n = "nextTaskId s"
  let ?s' = "exec c s"
  have ids: "map word_of_nat [0..<unat (nextTaskId ?s')] =
      map word_of_nat [0..<unat ?n] @ [?n]"
    using st(1,2) by (simp add: unat_inc)
  have new: "employer (tasks ?s' ?n) = msg_sender m" using st(3) by simp
  show ?thesis
  proof
    fix a
    have old: "filter (\<lambda>i. employer (tasks ?s' i) = a) (map word_of_nat [0..<unat ?n]) =
        filter (\<lambda>i. employer (tasks s i) = a) (map word_of_nat [0..<unat ?n])"
    proof (rule filter_cong[OF refl])
      fix i :: uint256
      assume "i \<in> set (map word_of_nat [0..<unat ?n])"
      then have "i < ?n" unfolding set_ids_below by simp
      then have "i \<noteq> ?n" by auto
      then show "(employer (tasks ?s' i) = a) = (employer (tasks s i) = a)"
        using st(3) by simp
    qed
    have "employerTasks ?s' a =
        filter (\<lambda>i. employer (tasks s i) = a) (map word_of_nat [0..<unat ?n])
        @ (if msg_sender m = a then [?n] else [])"
      unfolding st(4) using inv by simp
    also have "\<dots> = filter (\<lambda>i. employer (tasks ?s' i) = a)
        (map word_of_nat [0..<unat ?n] @ [?n])"
      unfolding filter_append old using new by simp
    finally show "employerTasks ?s' a =
      filter (\<lambda>i. employer (tasks ?s' i) = a)
        (map word_of_nat [0..<unat (nextTaskId ?s')])"
      unfolding ids .
  qed
next
  case (submitted x j url)
  note st = submitTask_storage[OF submitted(2)]
  have "employer (tasks (exec c s) i) = employer (tasks s i)" for i
    using st(2) by simp
  then show ?thesis using st(1,3) inv by simp
next
  case (approved x j acc)
  note st = approveTask_storage[OF approved(2)]
  have "employer (tasks (exec c s) i) = employer (tasks s i)" for i
    using st(2) by simp
  then show ?thesis using st(1,3) inv by simp
qed

section \<open>C1: approval releases the reward, once\<close>

text \<open>
  C1. A successful \<open>approveTask\<close> is on an existing task, sets \<open>isApproved\<close> and
  \<open>isCompleted\<close>, and moves exactly the task's reward from the contract to the task's
  agent, every other balance staying as it was; after it no \<open>approveTask\<close> on that task
  succeeds again, whatever transactions come between and whoever calls. When
  \<open>approveTask\<close> fails, at a \<^verbatim>\<open>require\<close> or at the transfer, the transaction
  leaves the state as it was: no flag is set and no balance moves.
\<close>

theorem approveTask_releases_reward_once:
  "(approveTask c taskId acc s = Inr s' \<longrightarrow>
      taskId < nextTaskId s
    \<and> isApproved (tasks s' taskId) \<and> isCompleted (tasks s' taskId)
    \<and> balances s' (agent (tasks s taskId)) =
        balances s (agent (tasks s taskId)) + unat (reward (tasks s taskId))
    \<and> balances s' CONTRACT_ADDRESS + unat (reward (tasks s taskId)) =
        balances s CONTRACT_ADDRESS
    \<and> (\<forall>a. a \<noteq> agent (tasks s taskId) \<and> a \<noteq> CONTRACT_ADDRESS \<longrightarrow>
          balances s' a = balances s a)
    \<and> (\<forall>cs c' acc'. isl (approveTask c' taskId acc' (run cs s'))))
   \<and> (approveTask c taskId acc s = Inl e \<longrightarrow>
        transact (approveTask c taskId acc) s = (Some e, s)
      \<and> exec (Approve c taskId acc) s = s)"
proof (intro conjI impI)
  assume ok: "approveTask c taskId acc s = Inr s'"
  note pre = approveTask_Inr[OF ok] and st = approveTask_storage[OF ok]
  show "taskId < nextTaskId s" by (rule pre(1))
  show "isApproved (tasks s' taskId)" using st(2) by simp
  show "isCompleted (tasks s' taskId)" using st(2) by simp
  show "balances s' (agent (tasks s taskId)) =
        balances s (agent (tasks s taskId)) + unat (reward (tasks s taskId))"
    using st(4) by simp
  show "balances s' CONTRACT_ADDRESS + unat (reward (tasks s taskId)) =
        balances s CONTRACT_ADDRESS"
    using st(4) pre(6,7) by simp
  show "\<forall>a. a \<noteq> agent (tasks s taskId) \<and> a \<noteq> CONTRACT_ADDRESS \<longrightarrow>
          balances s' a = balances s a"
    using st(4) by simp
  show "\<forall>cs c' acc'. isl (approveTask c' taskId acc' (run cs s'))"
  proof (intro allI)
    fix cs c' acc'
    have lt: "taskId < nextTaskId s'" using st(1) pre(1) by simp
    have "isApproved (tasks s' taskId)" using st(2) by simp
    with run_task_stable[OF lt, of cs]
    have "isApproved (tasks (run cs s') taskId)" by simp
    then show "isl (approveTask c' taskId acc' (run cs s'))"
      by (simp add: approveTask_def Let_def)
  qed
next
  assume "approveTask c taskId acc s = Inl e"
  then show "transact (approveTask c taskId acc) s = (Some e, s)"
    by (simp add: transact_def)
next
  assume "approveTask c taskId acc s = Inl e"
  then show "exec (Approve c taskId acc) s = s"
    by (simp add: exec_def transact_def)
qed

theorem approveTask_releases_reward_once_witness:
  "approveTask 1 0 True demo_submitted = Inr demo_approved
   \<and> isApproved (tasks demo_approved 0) \<and> isCompleted (tasks demo_approved 0)
   \<and> balances demo_submitted 2 = 0 \<and> balances demo_approved 2 = 100
   \<and> balances demo_submitted CONTRACT_ADDRESS = 100 \<and> balances demo_approved CONTRACT_ADDRESS = 0
   \<and> (1::address) \<noteq> agent (tasks demo_submitted 0) \<and> (1::address) \<noteq> CONTRACT_ADDRESS
   \<and> balances demo_approved 1 = balances demo_submitted 1
   \<and> isl (approveTask 1 0 True (run [Submit 3 0 ''http://b''] demo_approved))
   \<and> approveTask 1 0 False demo_submitted = Inl TransferFailed
   \<and> transact (approveTask 1 0 False) demo_submitted = (Some TransferFailed, demo_submitted)
   \<and> \<not> isApproved (tasks (exec (Approve 1 0 False) demo_submitted) 0)
   \<and> balances (exec (Approve 1 0 False) demo_submitted) 2 = 0"
proof -
  note ok = approveTask_releases_reward_once
    [of 1 0 True demo_submitted demo_approved TransferFailed]
  note refused = approveTask_releases_reward_once
    [of 1 0 False demo_submitted demo_approved TransferFailed]
  have once: "isl (approveTask 1 0 True (run [Submit 3 0 ''http://b''] demo_approved))"
    using ok demo_approve_ok by blast
  have paid: "isApproved (tasks demo_approved 0) \<and> isCompleted (tasks demo_approved 0)
      \<and> balances demo_approved (agent (tasks demo_submitted 0)) =
          balances demo_submitted (agent (tasks demo_submitted 0))
          + unat (reward (tasks demo_submitted 0))"
    using ok demo_approve_ok by blast
  have kept: "transact (approveTask 1 0 False) demo_submitted = (Some TransferFailed, demo_submitted)
      \<and> exec (Approve 1 0 False) demo_submitted = demo_submitted"
    using refused demo_approve_refused by blast
  show ?thesis
    using once paid kept demo_approve_ok demo_approve_refused
    by (simp add: demo_submitted_eq demo_approved_eq CONTRACT_ADDRESS_def demo_funds_def)
qed

section \<open>C2: the errors of approval\<close>

text \<open>
  The errors of \<open>approveTask\<close> follow the order of its checks. On the task just created,
  whose agent is unset, the employer's call fails with \<open>NotSubmitted\<close>, not
  \<open>NoAgent\<close>; on the approved task a call of another account fails with
  \<open>Unauthorized\<close>, not \<open>AlreadyApproved\<close>.
\<close>

theorem approveTask_error_counterexample:
  "agent (tasks demo_created 0) = 0
   \<and> approveTask 1 0 True demo_created = Inl NotSubmitted
   \<and> approveTask 1 0 True demo_created \<noteq> Inl NoAgent
   \<and> approveTask 2 0 True demo_approved = Inl Unauthorized
   \<and> approveTask 2 0 True demo_approved \<noteq> Inl AlreadyApproved"
  by (simp add: demo_created_eq demo_approved_eq approveTask_def Let_def)

text \<open>
  C2, in the order of the checks. \<open>approveTask\<close> applies its checks in this
  order and fails with the error of the first one that does not hold: \<open>TaskNotFound\<close> when the id is out of
  range; else \<open>Unauthorized\<close> when the caller is not the task's employer; else
  \<open>NotSubmitted\<close> when \<open>isSubmitted\<close> is false; else \<open>AlreadyApproved\<close> when
  \<open>isApproved\<close> is true, which is the case for every call of the employer after a
  successful approval; else \<open>NoAgent\<close> when the agent is unset. A call on a task whose
  agent is unset always fails; in the states reached by transactions whose senders are
  not the zero address it fails at an earlier check, never with \<open>NoAgent\<close>. In every
  case of failure the state is left as it was.
\<close>

theorem approveTask_errors_in_order:
  "(\<not> taskId < nextTaskId s \<longrightarrow> approveTask c taskId acc s = Inl TaskNotFound)
   \<and> (taskId < nextTaskId s \<and> c \<noteq> employer (tasks s taskId) \<longrightarrow>
        approveTask c taskId acc s = Inl Unauthorized)
   \<and> (taskId < nextTaskId s \<and> c = employer (tasks s taskId)
        \<and> \<not> isSubmitted (tasks s taskId) \<longrightarrow>
        approveTask c taskId acc s = Inl NotSubmitted)
   \<and> (taskId < nextTaskId s \<and> c = employer (tasks s taskId)
        \<and> isSubmitted (tasks s taskId) \<and> isApproved (tasks s taskId) \<longrightarrow>
        approveTask c taskId acc s = Inl AlreadyApproved)
   \<and> (taskId < nextTaskId s \<and> c = employer (tasks s taskId)
        \<and> isSubmitted (tasks s taskId) \<and> \<not> isApproved (tasks s taskId)
        \<and> agent (tasks s taskId) = 0 \<longrightarrow>
        approveTask c taskId acc s = Inl NoAgent)
   \<and> (agent (tasks s taskId) = 0 \<longrightarrow> isl (approveTask c taskId acc s))
   \<and> (list_all wf_op hist \<longrightarrow>
        approveTask c taskId acc (run hist (init_state b)) \<noteq> Inl NoAgent)
   \<and> (approveTask c taskId acc s = Inr s' \<longrightarrow>
        (\<forall>cs acc'. approveTask c taskId acc' (run cs s') = Inl AlreadyApproved))
   \<and> (approveTask c taskId acc s = Inl e \<longrightarrow>
        transact (approveTask c taskId acc) s = (Some e, s)
      \<and> exec (Approve c taskId acc) s = s)"
proof (intro conjI impI)
  assume ok: "approveTask c taskId acc s = Inr s'"
  note pre = approveTask_Inr[OF ok] and st = approveTask_storage[OF ok]
  show "\<forall>cs acc'. approveTask c taskId acc' (run cs s') = Inl AlreadyApproved"
  proof (intro allI)
    fix cs acc'
    have lt: "taskId < nextTaskId s'" using st(1) pre(1) by simp
    have now: "isApproved (tasks s' taskId)" "isSubmitted (tasks s' taskId)"
      "employer (tasks s' taskId) = c"
      using st(2) pre(2,3) by simp_all
    with run_task_stable[OF lt, of cs]
    have "taskId < nextTaskId (run cs s')" "isApproved (tasks (run cs s') taskId)"
      "isSubmitted (tasks (run cs s') taskId)" "employer (tasks (run cs s') taskId) = c"
      by simp_all
    then show "approveTask c taskId acc' (run cs s') = Inl AlreadyApproved"
      by (simp add: approveTask_def Let_def)
  qed
next
  assume wf: "list_all wf_op hist"
  have "\<forall>i. agent (tasks (run hist (init_state b)) i) = 0
      \<longleftrightarrow> \<not> isSubmitted (tasks (run hist (init_state b)) i)"
    by (rule run_invariant[where Q = wf_op
          and P = "\<lambda>s. \<forall>i. agent (tasks s i) = 0 \<longleftrightarrow> \<not> isSubmitted (tasks s i)",
          OF _ exec_agent_inv wf])
      (simp_all add: init_state_def zero_Task_def)
  then show "approveTask c taskId acc (run hist (init_state b)) \<noteq> Inl NoAgent"
    by (simp add: approveTask_def transfer_def Let_def)
qed (simp_all add: approveTask_def Let_def transact_def exec_def)

theorem approveTask_errors_in_order_witness:
  "\<not> (5::uint256) < nextTaskId demo_created
     \<and> approveTask 1 5 True demo_created = Inl TaskNotFound
   \<and> (0::uint256) < nextTaskId demo_created \<and> 2 \<noteq> employer (tasks demo_created 0)
     \<and> approveTask 2 0 True demo_created = Inl Unauthorized
   \<and> 1 = employer (tasks demo_created 0) \<and> \<not> isSubmitted (tasks demo_created 0)
     \<and> approveTask 1 0 True demo_created = Inl NotSubmitted
   \<and> (0::uint256) < nextTaskId demo_approved \<and> 1 = employer (tasks demo_approved 0)
     \<and> isSubmitted (tasks demo_approved 0) \<and> isApproved (tasks demo_approved 0)
     \<and> approveTask 1 0 True demo_approved = Inl AlreadyApproved
   \<and> (0::uint256) < nextTaskId demo_zero_agent \<and> 1 = employer (tasks demo_zero_agent 0)
     \<and> isSubmitted (tasks demo_zero_agent 0) \<and> \<not> isApproved (tasks demo_zero_agent 0)
     \<and> agent (tasks demo_zero_agent 0) = 0
     \<and> approveTask 1 0 True demo_zero_agent = Inl NoAgent
   \<and> agent (tasks demo_created 0) = 0 \<and> isl (approveTask 1 0 True demo_created)
   \<and> list_all wf_op [demo_create] \<and> approveTask 1 0 True demo_created \<noteq> Inl NoAgent
   \<and> approveTask 1 0 True demo_submitted = Inr demo_approved
     \<and> approveTask 1 0 False (run [Submit 3 0 ''http://b''] demo_approved) = Inl AlreadyApproved
   \<and> transact (approveTask 2 0 True) demo_created = (Some Unauthorized, demo_created)
     \<and> exec (Approve 2 0 True) demo_created = demo_created"
proof -
  have h1: "\<not> (5::uint256) < nextTaskId demo_created"
    and h2: "(0::uint256) < nextTaskId demo_created \<and> 2 \<noteq> employer (tasks demo_created 0)"
    and h3: "(0::uint256) < nextTaskId demo_created \<and> 1 = employer (tasks demo_created 0)
       \<and> \<not> isSubmitted (tasks demo_created 0)"
    and h6: "agent (tasks demo_created 0) = 0"
    by (simp_all add: demo_created_eq)
  have h4: "(0::uint256) < nextTaskId demo_approved \<and> 1 = employer (tasks demo_approved 0)
       \<and> isSubmitted (tasks demo_approved 0) \<and> isApproved (tasks demo_approved 0)"
    by (simp add: demo_approved_eq)
  have h5: "(0::uint256) < nextTaskId demo_zero_agent \<and> 1 = employer (tasks demo_zero_agent 0)
     \<and> isSubmitted (tasks demo_zero_agent 0) \<and> \<not> isApproved (tasks demo_zero_agent 0)
     \<and> agent (tasks demo_zero_agent 0) = 0"
    by (simp add: demo_zero_agent_eq)
  have h7: "list_all wf_op [demo_create]"
    by (simp add: wf_op_def demo_create_def)
  note T = approveTask_errors_in_order
  from T [of 5 demo_created 1 True] h1
  have c1: "approveTask 1 5 True demo_created = Inl TaskNotFound" by blast
  from T [of 0 demo_created 2 True] h2
  have c2: "approveTask 2 0 True demo_created = Inl Unauthorized" by blast
  from T [of 0 demo_created 1 True] h3
  have c3: "approveTask 1 0 True demo_created = Inl NotSubmitted" by blast
  from T [of 0 demo_approved 1 True] h4
  have c4: "approveTask 1 0 True demo_approved = Inl AlreadyApproved" by blast
  from T [of 0 demo_zero_agent 1 True] h5
  have c5: "approveTask 1 0 True demo_zero_agent = Inl NoAgent" by blast
  from T [of 0 demo_created 1 True] h6
  have c6: "isl (approveTask 1 0 True demo_created)" by blast
  from T [where taskId = 0 and c = 1 and acc = True and hist = "[demo_create]"
      and b = demo_funds] h7
  have c7: "approveTask 1 0 True demo_created \<noteq> Inl NoAgent"
    unfolding demo_created_def by blast
  from T [where taskId = 0 and s = demo_submitted and c = 1 and acc = True
      and s' = demo_approved] demo_approve_ok
  have c8: "approveTask 1 0 False (run [Submit 3 0 ''http://b''] demo_approved)
      = Inl AlreadyApproved" by blast
  from T [where taskId = 0 and s = demo_created and c = 2 and acc = True
      and e = Unauthorized] c2
  have c9: "transact (approveTask 2 0 True) demo_created = (Some Unauthorized, demo_created)
     \<and> exec (Approve 2 0 True) demo_created = demo_created" by blast
  show ?thesis
    using h1 h2 h3 h4 h5 h6 h7 c1 c2 c3 c4 c5 c6 c7 c8 c9 demo_approve_ok by blast
qed

section \<open>C3: the first submission wins\<close>

text \<open>
  C3. A successful \<open>submitTask\<close> is on an existing task and sets \<open>agent\<close> to the
  caller, \<open>submissionUrl\<close> to the given value and \<open>isSubmitted\<close> to true. After it,
  whatever transactions come between, every \<open>submitTask\<close> on the same task, by any
  caller and with any url, fails with \<open>AlreadyClaimed\<close> and changes nothing, and
  \<open>agent\<close> and \<open>submissionUrl\<close> are still what the first submission wrote. (The
  caller of a transaction is not the zero address.)
\<close>

theorem submitTask_first_wins:
  assumes "submitTask c taskId url s = Inr s1" and "c \<noteq> 0"
  shows "taskId < nextTaskId s
    \<and> agent (tasks s1 taskId) = c \<and> submissionUrl (tasks s1 taskId) = url
    \<and> isSubmitted (tasks s1 taskId)
    \<and> (\<forall>cs c' url'.
          submitTask c' taskId url' (run cs s1) = Inl AlreadyClaimed
        \<and> exec (Submit c' taskId url') (run cs s1) = run cs s1
        \<and> agent (tasks (run cs s1) taskId) = c
        \<and> submissionUrl (tasks (run cs s1) taskId) = url)"
proof -
  note st = submitTask_Inr[OF assms(1)]
  note t = submitTask_storage(2)[OF assms(1)] and n = submitTask_storage(1)[OF assms(1)]
  have lt: "taskId < nextTaskId s1" using n st(1) by simp
  have now: "agent (tasks s1 taskId) = c" "submissionUrl (tasks s1 taskId) = url"
    "isSubmitted (tasks s1 taskId)"
    using t by simp_all
  have later: "submitTask c' taskId url' (run cs s1) = Inl AlreadyClaimed
        \<and> exec (Submit c' taskId url') (run cs s1) = run cs s1
        \<and> agent (tasks (run cs s1) taskId) = c
        \<and> submissionUrl (tasks (run cs s1) taskId) = url" for cs c' url'
  proof -
    from run_task_stable[OF lt, of cs] now assms(2)
    have k: "taskId < nextTaskId (run cs s1)" "agent (tasks (run cs s1) taskId) = c"
      "submissionUrl (tasks (run cs s1) taskId) = url"
      by simp_all
    have "submitTask c' taskId url' (run cs s1) = Inl AlreadyClaimed"
      using k(1,2) assms(2) by (simp add: submitTask_def Let_def)
    then show ?thesis using k by (simp add: exec_def transact_def)
  qed
  show ?thesis using st(1) now later by blast
qed

theorem submitTask_first_wins_witness:
  "submitTask 2 0 ''http://a'' demo_created = Inr demo_submitted \<and> (2::address) \<noteq> 0
   \<and> agent (tasks demo_submitted 0) = 2
   \<and> submissionUrl (tasks demo_submitted 0) = ''http://a''
   \<and> isSubmitted (tasks demo_submitted 0)
   \<and> submitTask 3 0 ''http://b'' demo_approved = Inl AlreadyClaimed
   \<and> agent (tasks demo_approved 0) = 2
   \<and> submissionUrl (tasks demo_approved 0) = ''http://a''"
proof -
  have nz: "(2::address) \<noteq> 0" by simp
  have r: "run [Approve 1 0 True] demo_submitted = demo_approved"
    by (simp add: demo_approved_run)
  from submitTask_first_wins [OF demo_submit_ok nz]
  have "submitTask 3 0 ''http://b'' (run [Approve 1 0 True] demo_submitted) = Inl AlreadyClaimed
      \<and> agent (tasks (run [Approve 1 0 True] demo_submitted) 0) = 2
      \<and> submissionUrl (tasks (run [Approve 1 0 True] demo_submitted) 0) = ''http://a''"
    and "agent (tasks demo_submitted 0) = 2
      \<and> submissionUrl (tasks demo_submitted 0) = ''http://a''
      \<and> isSubmitted (tasks demo_submitted 0)"
    by blast+
  then show ?thesis using demo_submit_ok nz unfolding r by blast
qed

section \<open>C4: the id of a new task\<close>

text \<open>
  C4. After a successful \<open>createTask\<close> the new task is stored under the id that
  \<open>getTotalTasks\<close> returned just before the call, with that id in its record, in the
  caller's index list and in the event; \<open>getTotalTasks\<close> afterwards is that value plus
  one, without wrap-around.
\<close>

theorem createTask_assigns_next_id:
  assumes "call (Create m descr) s = Inr s'"
  shows "getTask (getTotalTasks s) s' =
           Inr \<lparr>task_id = getTotalTasks s, employer = msg_sender m, agent = 0,
                description = descr, reward = msg_value m, submissionUrl = [],
                isSubmitted = False, isApproved = False, isCompleted = False\<rparr>
    \<and> getEmployerTasks (msg_sender m) s' =
        getEmployerTasks (msg_sender m) s @ [getTotalTasks s]
    \<and> last (events s') = TaskCreated (getTotalTasks s) (msg_sender m) (msg_value m) descr
    \<and> getTotalTasks s' = getTotalTasks s + 1
    \<and> unat (getTotalTasks s') = unat (getTotalTasks s) + 1"
proof -
  from assms obtain s0 where r: "receive_value m s = Inr s0"
    and c: "createTask m descr s0 = Inr s'"
    by (rule call_Create_Inr)
  note rs = receive_value_Inr[OF r] and cs = createTask_Inr[OF c]
  note st = call_Create_storage[OF assms]
  have ev: "events s' = events s @
      [TaskCreated (nextTaskId s) (msg_sender m) (msg_value m) descr]"
    by (subst cs(4)) (simp add: rs)
  have "nextTaskId s < nextTaskId s'"
    using st(1,2) by (simp add: word_inc_less)
  then have "getTask (getTotalTasks s) s' =
           Inr \<lparr>task_id = getTotalTasks s, employer = msg_sender m, agent = 0,
                description = descr, reward = msg_value m, submissionUrl = [],
                isSubmitted = False, isApproved = False, isCompleted = False\<rparr>"
    using st(3) by (simp add: getTask_def getTotalTasks_def)
  moreover have "getEmployerTasks (msg_sender m) s' =
        getEmployerTasks (msg_sender m) s @ [getTotalTasks s]"
    using st(4) by (simp add: getEmployerTasks_def getTotalTasks_def)
  moreover have "last (events s') =
      TaskCreated (getTotalTasks s) (msg_sender m) (msg_value m) descr"
    using ev by (simp add: getTotalTasks_def)
  moreover have "getTotalTasks s' = getTotalTasks s + 1"
    using st(2) by (simp add: getTotalTasks_def)
  moreover have "unat (getTotalTasks s') = unat (getTotalTasks s) + 1"
    using st(1,2) by (simp add: getTotalTasks_def unat_inc)
  ultimately show ?thesis by blast
qed

theorem createTask_assigns_next_id_witness:
  "call (Create \<lparr>msg_sender = 1, msg_value = 100\<rparr> ''X'') (init_state demo_funds)
     = Inr demo_created
   \<and> getTotalTasks (init_state demo_funds) = 0
   \<and> getTask 0 demo_created =
        Inr \<lparr>task_id = 0, employer = 1, agent = 0, description = ''X'', reward = 100,
             submissionUrl = [], isSubmitted = False, isApproved = False,
             isCompleted = False\<rparr>
   \<and> getTotalTasks demo_created = 1"
proof -
  have ok: "call (Create \<lparr>msg_sender = 1, msg_value = 100\<rparr> ''X'') (init_state demo_funds)
     = Inr demo_created"
    using demo_create_ok by (simp add: demo_create_def)
  have z: "getTotalTasks (init_state demo_funds) = 0"
    by (simp add: getTotalTasks_def init_state_def)
  from createTask_assigns_next_id [OF ok] show ?thesis
    using ok z by simp
qed

section \<open>C5: rejected creations\<close>

text \<open>
  The reward is checked before the description: a call with zero value and an empty
  description fails with \<open>InvalidReward\<close>, not with \<open>InvalidDescription\<close>.
\<close>

theorem createTask_rejection_counterexample:
  "createTask \<lparr>msg_sender = 1, msg_value = 0\<rparr> [] (init_state demo_funds) = Inl InvalidReward
   \<and> createTask \<lparr>msg_sender = 1, msg_value = 0\<rparr> [] (init_state demo_funds)
       \<noteq> Inl InvalidDescription"
  by (simp add: createTask_def)

text \<open>
  C5, with the reward checked first. \<open>createTask\<close> called with zero value fails
  with \<open>InvalidReward\<close>, and \<open>createTask\<close> called with a non-zero value and an empty description fails with
  \<open>InvalidDescription\<close>; in both cases the transaction leaves the state as it was: no
  task record is created, \<open>getTotalTasks\<close> is unchanged, and the caller's task-index
  list is unchanged.
\<close>

theorem createTask_rejects:
  "(msg_value m = 0 \<longrightarrow> createTask m descr s = Inl InvalidReward)
   \<and> (msg_value m \<noteq> 0 \<and> descr = [] \<longrightarrow> createTask m descr s = Inl InvalidDescription)
   \<and> (msg_value m = 0 \<or> descr = [] \<longrightarrow>
        isl (call (Create m descr) s)
      \<and> exec (Create m descr) s = s
      \<and> tasks (exec (Create m descr) s) = tasks s
      \<and> getTotalTasks (exec (Create m descr) s) = getTotalTasks s
      \<and> getEmployerTasks (msg_sender m) (exec (Create m descr) s)
          = getEmployerTasks (msg_sender m) s)"
proof -
  have a: "msg_value m = 0 \<longrightarrow> createTask m descr s = Inl InvalidReward" for s
    by (simp add: createTask_def)
  have b: "msg_value m \<noteq> 0 \<and> descr = [] \<longrightarrow> createTask m descr s = Inl InvalidDescription"
    for s
    by (simp add: createTask_def word_neq_0_conv)
  have c: "isl (call (Create m descr) s)" if "msg_value m = 0 \<or> descr = []"
  proof (cases "receive_value m s")
    case (Inl e)
    then show ?thesis by simp
  next
    case (Inr s0)
    have "isl (createTask m descr s0)"
      using that a[of s0] b[of s0] by (cases "msg_value m = 0") auto
    with Inr show ?thesis by simp
  qed
  have d: "exec (Create m descr) s = s" if "msg_value m = 0 \<or> descr = []"
    using c[OF that] by (cases "call (Create m descr) s") (simp_all add: exec_def transact_def)
  show ?thesis using a b c d by simp
qed

theorem createTask_rejects_witness:
  "msg_value \<lparr>msg_sender = 1, msg_value = 0\<rparr> = 0
   \<and> createTask \<lparr>msg_sender = 1, msg_value = 0\<rparr> ''X'' demo_created = Inl InvalidReward
   \<and> msg_value \<lparr>msg_sender = 1, msg_value = 100\<rparr> \<noteq> 0
   \<and> createTask \<lparr>msg_sender = 1, msg_value = 100\<rparr> [] demo_created = Inl InvalidDescription
   \<and> exec (Create \<lparr>msg_sender = 1, msg_value = 100\<rparr> []) demo_created = demo_created
   \<and> getTotalTasks (exec (Create \<lparr>msg_sender = 1, msg_value = 0\<rparr> ''X'') demo_created) = 1
   \<and> getEmployerTasks 1 (exec (Create \<lparr>msg_sender = 1, msg_value = 0\<rparr> ''X'') demo_created)
       = [0]"
proof -
  have z: "msg_value \<lparr>msg_sender = 1, msg_value = 0\<rparr> = 0"
    and nz: "msg_value \<lparr>msg_sender = 1, msg_value = 100\<rparr> \<noteq> 0"
    by simp_all
  note A = createTask_rejects [of "\<lparr>msg_sender = 1, msg_value = 0\<rparr>" "''X''" demo_created]
  note B = createTask_rejects [of "\<lparr>msg_sender = 1, msg_value = 100\<rparr>" "[]" demo_created]
  have a: "createTask \<lparr>msg_sender = 1, msg_value = 0\<rparr> ''X'' demo_created = Inl InvalidReward"
    and a': "exec (Create \<lparr>msg_sender = 1, msg_value = 0\<rparr> ''X'') demo_created = demo_created"
    using A z by blast+
  have b: "createTask \<lparr>msg_sender = 1, msg_value = 100\<rparr> [] demo_created
      = Inl InvalidDescription"
    and b': "exec (Create \<lparr>msg_sender = 1, msg_value = 100\<rparr> []) demo_created = demo_created"
    using B nz by blast+
  have e: "getTotalTasks demo_created = 1" "getEmployerTasks 1 demo_created = [0]"
    by (simp_all add: demo_created_eq getTotalTasks_def getEmployerTasks_def)
  show ?thesis using z nz a b b' e unfolding a' by blast
qed

section \<open>C6: the order of the flags\<close>

text \<open>
  C6. In every state the contract reaches from deployment by any sequence of \<open>createTask\<close>,
  \<open>submitTask\<close> and \<open>approveTask\<close> transactions, every task record satisfies:
  \<open>isApproved\<close> implies \<open>isSubmitted\<close>, and \<open>isCompleted\<close> implies \<open>isApproved\<close>.
\<close>

theorem flags_ordered:
  "(isApproved (tasks (run cs (init_state b)) taskId)
      \<longrightarrow> isSubmitted (tasks (run cs (init_state b)) taskId))
   \<and> (isCompleted (tasks (run cs (init_state b)) taskId)
      \<longrightarrow> isApproved (tasks (run cs (init_state b)) taskId))"
proof -
  have "\<forall>i. (isApproved (tasks (run cs (init_state b)) i)
          \<longrightarrow> isSubmitted (tasks (run cs (init_state b)) i))
      \<and> (isCompleted (tasks (run cs (init_state b)) i)
          \<longrightarrow> isApproved (tasks (run cs (init_state b)) i))"
    by (rule run_invariant[where Q = "\<lambda>_. True"
          and P = "\<lambda>s. \<forall>i. (isApproved (tasks s i) \<longrightarrow> isSubmitted (tasks s i))
                     \<and> (isCompleted (tasks s i) \<longrightarrow> isApproved (tasks s i))",
          OF _ exec_flags_inv])
      (simp_all add: init_state_def zero_Task_def list_all_iff)
  then show ?thesis by blast
qed

theorem flags_ordered_witness:
  "isApproved (tasks demo_approved 0) \<and> isSubmitted (tasks demo_approved 0)
   \<and> isCompleted (tasks demo_approved 0)"
  using flags_ordered [of "[demo_create, Submit 2 0 ''http://a'', Approve 1 0 True]"
      demo_funds 0]
  by (simp add: demo_approved_eq demo_approved_def [symmetric])

section \<open>C7: the agent of a task\<close>

text \<open>
  C7. In every state reached from deployment by transactions whose senders are not the
  zero address, the agent of a task is unset exactly when \<open>isSubmitted\<close> is false; and
  an agent that is set belongs to a created task and is the same after any further
  transaction, and after any sequence of them.
\<close>

theorem agent_set_iff_submitted:
  assumes "list_all wf_op cs" and "s = run cs (init_state b)"
  shows "(agent (tasks s taskId) = 0 \<longleftrightarrow> \<not> isSubmitted (tasks s taskId))
    \<and> (agent (tasks s taskId) \<noteq> 0 \<longrightarrow>
         taskId < getTotalTasks s
       \<and> (\<forall>c. agent (tasks (exec c s) taskId) = agent (tasks s taskId))
       \<and> (\<forall>cs'. agent (tasks (run cs' s) taskId) = agent (tasks s taskId)))"
proof -
  have iff: "agent (tasks s taskId) = 0 \<longleftrightarrow> \<not> isSubmitted (tasks s taskId)"
  proof -
    have "\<forall>i. agent (tasks (run cs (init_state b)) i) = 0
        \<longleftrightarrow> \<not> isSubmitted (tasks (run cs (init_state b)) i)"
      by (rule run_invariant[where Q = wf_op
            and P = "\<lambda>s. \<forall>i. agent (tasks s i) = 0 \<longleftrightarrow> \<not> isSubmitted (tasks s i)",
            OF _ exec_agent_inv assms(1)])
        (simp_all add: init_state_def zero_Task_def)
    then show ?thesis unfolding assms(2) by blast
  qed
  have keep: "taskId < getTotalTasks s
       \<and> (\<forall>c. agent (tasks (exec c s) taskId) = agent (tasks s taskId))
       \<and> (\<forall>cs'. agent (tasks (run cs' s) taskId) = agent (tasks s taskId))"
    if nz: "agent (tasks s taskId) \<noteq> 0"
  proof -
    have lt: "taskId < nextTaskId s"
    proof (rule ccontr)
      assume "\<not> taskId < nextTaskId s"
      then have "tasks s taskId = zero_Task"
        unfolding assms(2) using init_unwritten by blast
      with nz show False by (simp add: zero_Task_def)
    qed
    show ?thesis
      using lt nz exec_task_stable[OF lt] run_task_stable[OF lt]
      by (simp add: getTotalTasks_def)
  qed
  show ?thesis using iff keep by blast
qed

theorem agent_set_iff_submitted_witness:
  "list_all wf_op [demo_create, Submit 2 0 ''http://a'']
   \<and> agent (tasks demo_created 0) = 0 \<and> \<not> isSubmitted (tasks demo_created 0)
   \<and> agent (tasks demo_submitted 0) \<noteq> 0 \<and> isSubmitted (tasks demo_submitted 0)
   \<and> (0::uint256) < getTotalTasks demo_submitted
   \<and> agent (tasks (exec (Submit 3 0 ''http://b'') demo_submitted) 0) = 2
   \<and> agent (tasks demo_approved 0) = 2"
proof -
  have wf: "list_all wf_op [demo_create, Submit 2 0 ''http://a'']"
    by (simp add: wf_op_def demo_create_def)
  have nz: "agent (tasks demo_submitted 0) \<noteq> 0" and a: "agent (tasks demo_submitted 0) = 2"
    by (simp_all add: demo_submitted_eq)
  have r: "run [Approve 1 0 True] demo_submitted = demo_approved"
    by (simp add: demo_approved_run)
  note T = agent_set_iff_submitted [OF wf demo_submitted_def, of 0]
  from T nz have "isSubmitted (tasks demo_submitted 0)"
    and "(0::uint256) < getTotalTasks demo_submitted"
    and "agent (tasks (exec (Submit 3 0 ''http://b'') demo_submitted) 0) = 2"
    and "agent (tasks (run [Approve 1 0 True] demo_submitted) 0) = 2"
    unfolding a by blast+
  then show ?thesis using wf nz unfolding r by (simp add: demo_created_eq)
qed

section \<open>C8: the index of an employer's tasks\<close>

text \<open>
  C8. In every state reached from deployment, \<open>getEmployerTasks a\<close> is the list of the
  created ids \<open>0, 1, \<dots>, getTotalTasks - 1\<close>, in the order of creation, restricted to the
  tasks whose employer is \<open>a\<close>: it holds exactly those ids, in strictly increasing
  order, each once.
\<close>

theorem getEmployerTasks_lists_created_ids:
  assumes "s = run cs (init_state b)"
  shows "getEmployerTasks a s =
           filter (\<lambda>i. employer (tasks s i) = a)
             (map word_of_nat [0..<unat (getTotalTasks s)])
    \<and> set (getEmployerTasks a s) = {i. i < getTotalTasks s \<and> employer (tasks s i) = a}
    \<and> sorted_wrt (<) (getEmployerTasks a s)
    \<and> distinct (getEmployerTasks a s)"
proof -
  have eq: "getEmployerTasks a s =
           filter (\<lambda>i. employer (tasks s i) = a)
             (map word_of_nat [0..<unat (getTotalTasks s)])"
  proof -
    have "\<forall>a. employerTasks (run cs (init_state b)) a =
        filter (\<lambda>i. employer (tasks (run cs (init_state b)) i) = a)
          (map word_of_nat [0..<unat (nextTaskId (run cs (init_state b)))])"
      by (rule run_invariant[where Q = "\<lambda>_. True"
            and P = "\<lambda>s. \<forall>a. employerTasks s a =
               filter (\<lambda>i. employer (tasks s i) = a)
                 (map word_of_nat [0..<unat (nextTaskId s)])",
            OF _ exec_index_inv])
        (simp_all add: init_state_def list_all_iff)
    then show ?thesis
      unfolding assms getEmployerTasks_def getTotalTasks_def by blast
  qed
  have st: "set (getEmployerTasks a s) = {i. i < getTotalTasks s \<and> employer (tasks s i) = a}"
    unfolding eq set_filter set_ids_below by auto
  have so: "sorted_wrt (<) (getEmployerTasks a s)"
    unfolding eq by (rule sorted_wrt_filter) (rule sorted_ids_below)
  have "distinct (getEmployerTasks a s)"
    using so by (simp add: strict_sorted_iff)
  with eq st so show ?thesis by blast
qed

theorem getEmployerTasks_lists_created_ids_witness:
  "demo_approved =
     run [demo_create, Submit 2 0 ''http://a'', Approve 1 0 True] (init_state demo_funds)
   \<and> getEmployerTasks 1 demo_approved = [0]
   \<and> getEmployerTasks 1 demo_approved =
       filter (\<lambda>i. employer (tasks demo_approved i) = 1)
         (map word_of_nat [0..<unat (getTotalTasks demo_approved)])
   \<and> sorted_wrt (<) (getEmployerTasks 1 demo_approved)"
proof -
  have "getEmployerTasks 1 demo_approved = [0]"
    by (simp add: demo_approved_eq getEmployerTasks_def)
  moreover from getEmployerTasks_lists_created_ids [OF demo_approved_def, of 1]
  have "getEmployerTasks 1 demo_approved =
       filter (\<lambda>i. employer (tasks demo_approved i) = 1)
         (map word_of_nat [0..<unat (getTotalTasks demo_approved)])"
    and "sorted_wrt (<) (getEmployerTasks 1 demo_approved)"
    by blast+
  ultimately show ?thesis using demo_approved_def by blast
qed

section \<open>C9: what each function writes\<close>

text \<open>
  C9. \<open>submitTask\<close> changes only \<open>agent\<close>, \<open>submissionUrl\<close> and \<open>isSubmitted\<close>
  of its task, \<open>approveTask\<close> only \<open>isApproved\<close> and \<open>isCompleted\<close> of its task,
  \<open>createTask\<close> only the slot of the new id, and \<open>getTask\<close> returns what was
  written. For a created task, after any sequence of transactions \<open>getTask\<close> returns
  the record with the id, employer, description and reward of before, and with the agent
  and submission url of before once an agent is set; one transaction changes the
  submission fields only if it is a \<open>submitTask\<close> on that task, and the approval flags
  only if it is an \<open>approveTask\<close> on that task.
\<close>

theorem task_fields_frame:
  "(submitTask c taskId url s = Inr s' \<longrightarrow>
      tasks s' = (tasks s)(taskId :=
        (tasks s taskId)\<lparr>agent := c, submissionUrl := url, isSubmitted := True\<rparr>)
    \<and> getTask taskId s' =
        Inr ((tasks s taskId)\<lparr>agent := c, submissionUrl := url, isSubmitted := True\<rparr>))
   \<and> (approveTask c taskId acc s = Inr s' \<longrightarrow>
      tasks s' = (tasks s)(taskId :=
        (tasks s taskId)\<lparr>isApproved := True, isCompleted := True\<rparr>)
    \<and> getTask taskId s' =
        Inr ((tasks s taskId)\<lparr>isApproved := True, isCompleted := True\<rparr>))
   \<and> (call (Create m descr) s = Inr s' \<longrightarrow>
      tasks s' = (tasks s)(nextTaskId s :=
        \<lparr>task_id = nextTaskId s, employer = msg_sender m, agent = 0,
         description = descr, reward = msg_value m, submissionUrl = [],
         isSubmitted = False, isApproved = False, isCompleted = False\<rparr>)
    \<and> getTask (nextTaskId s) s' =
        Inr \<lparr>task_id = nextTaskId s, employer = msg_sender m, agent = 0,
         description = descr, reward = msg_value m, submissionUrl = [],
         isSubmitted = False, isApproved = False, isCompleted = False\<rparr>)
   \<and> (taskId < nextTaskId s \<longrightarrow>
        getTask taskId (run cs s) = Inr (tasks (run cs s) taskId)
      \<and> task_id (tasks (run cs s) taskId) = task_id (tasks s taskId)
      \<and> employer (tasks (run cs s) taskId) = employer (tasks s taskId)
      \<and> description (tasks (run cs s) taskId) = description (tasks s taskId)
      \<and> reward (tasks (run cs s) taskId) = reward (tasks s taskId)
      \<and> (agent (tasks s taskId) \<noteq> 0 \<longrightarrow>
           agent (tasks (run cs s) taskId) = agent (tasks s taskId)
         \<and> submissionUrl (tasks (run cs s) taskId) = submissionUrl (tasks s taskId))
      \<and> ((\<forall>a u. op \<noteq> Submit a taskId u) \<longrightarrow>
           agent (tasks (exec op s) taskId) = agent (tasks s taskId)
         \<and> submissionUrl (tasks (exec op s) taskId) = submissionUrl (tasks s taskId)
         \<and> isSubmitted (tasks (exec op s) taskId) = isSubmitted (tasks s taskId))
      \<and> ((\<forall>a b. op \<noteq> Approve a taskId b) \<longrightarrow>
           isApproved (tasks (exec op s) taskId) = isApproved (tasks s taskId)
         \<and> isCompleted (tasks (exec op s) taskId) = isCompleted (tasks s taskId)))"
proof -
  have sub: "tasks s' = (tasks s)(taskId :=
        (tasks s taskId)\<lparr>agent := c, submissionUrl := url, isSubmitted := True\<rparr>)
    \<and> getTask taskId s' =
        Inr ((tasks s taskId)\<lparr>agent := c, submissionUrl := url, isSubmitted := True\<rparr>)"
    if ok: "submitTask c taskId url s = Inr s'"
  proof -
    note t = submitTask_storage(2)[OF ok] and n = submitTask_storage(1)[OF ok]
    show ?thesis using t n submitTask_Inr(1)[OF ok] by (simp add: getTask_def)
  qed
  have app: "tasks s' = (tasks s)(taskId :=
        (tasks s taskId)\<lparr>isApproved := True, isCompleted := True\<rparr>)
    \<and> getTask taskId s' =
        Inr ((tasks s taskId)\<lparr>isApproved := True, isCompleted := True\<rparr>)"
    if ok: "approveTask c taskId acc s = Inr s'"
  proof -
    note t = approveTask_storage(2)[OF ok] and n = approveTask_storage(1)[OF ok]
    show ?thesis using t n approveTask_Inr(1)[OF ok] by (simp add: getTask_def)
  qed
  have cre: "tasks s' = (tasks s)(nextTaskId s :=
        \<lparr>task_id = nextTaskId s, employer = msg_sender m, agent = 0,
         description = descr, reward = msg_value m, submissionUrl = [],
         isSubmitted = False, isApproved = False, isCompleted = False\<rparr>)
    \<and> getTask (nextTaskId s) s' =
        Inr \<lparr>task_id = nextTaskId s, employer = msg_sender m, agent = 0,
         description = descr, reward = msg_value m, submissionUrl = [],
         isSubmitted = False, isApproved = False, isCompleted = False\<rparr>"
    if ok: "call (Create m descr) s = Inr s'"
  proof -
    note st = call_Create_storage[OF ok]
    have "nextTaskId s < nextTaskId s'" using st(1,2) by (simp add: word_inc_less)
    then show ?thesis using st(3) by (simp add: getTask_def)
  qed
  have later: "getTask taskId (run cs s) = Inr (tasks (run cs s) taskId)
      \<and> task_id (tasks (run cs s) taskId) = task_id (tasks s taskId)
      \<and> employer (tasks (run cs s) taskId) = employer (tasks s taskId)
      \<and> description (tasks (run cs s) taskId) = description (tasks s taskId)
      \<and> reward (tasks (run cs s) taskId) = reward (tasks s taskId)
      \<and> (agent (tasks s taskId) \<noteq> 0 \<longrightarrow>
           agent (tasks (run cs s) taskId) = agent (tasks s taskId)
         \<and> submissionUrl (tasks (run cs s) taskId) = submissionUrl (tasks s taskId))"
    if lt: "taskId < nextTaskId s"
    using run_task_stable[OF lt, of cs] by (simp add: getTask_def)
  show ?thesis
    using sub app cre later exec_frame[of taskId s op] by blast
qed

theorem task_fields_frame_witness:
  "submitTask 2 0 ''http://a'' demo_created = Inr demo_submitted
   \<and> getTask 0 demo_submitted =
       Inr ((tasks demo_created 0)\<lparr>agent := 2, submissionUrl := ''http://a'',
              isSubmitted := True\<rparr>)
   \<and> approveTask 1 0 True demo_submitted = Inr demo_approved
   \<and> getTask 0 demo_approved =
       Inr ((tasks demo_submitted 0)\<lparr>isApproved := True, isCompleted := True\<rparr>)
   \<and> call (Create \<lparr>msg_sender = 1, msg_value = 100\<rparr> ''X'') (init_state demo_funds)
       = Inr demo_created
   \<and> getTask (nextTaskId (init_state demo_funds)) demo_created =
        Inr \<lparr>task_id = 0, employer = 1, agent = 0, description = ''X'', reward = 100,
             submissionUrl = [], isSubmitted = False, isApproved = False,
             isCompleted = False\<rparr>
   \<and> (0::uint256) < nextTaskId demo_submitted \<and> agent (tasks demo_submitted 0) \<noteq> 0
   \<and> getTask 0 demo_approved = Inr (tasks demo_approved 0)
   \<and> task_id (tasks demo_approved 0) = 0 \<and> employer (tasks demo_approved 0) = 1
   \<and> description (tasks demo_approved 0) = ''X'' \<and> reward (tasks demo_approved 0) = 100
   \<and> agent (tasks demo_approved 0) = 2
   \<and> submissionUrl (tasks demo_approved 0) = ''http://a''
   \<and> isSubmitted (tasks demo_approved 0) = isSubmitted (tasks demo_submitted 0)
   \<and> isApproved (tasks (exec (Submit 3 0 ''http://b'') demo_submitted) 0)
       = isApproved (tasks demo_submitted 0)"
proof -
  have mk: "call (Create \<lparr>msg_sender = 1, msg_value = 100\<rparr> ''X'') (init_state demo_funds)
     = Inr demo_created"
    using demo_create_ok by (simp add: demo_create_def)
  have lt: "(0::uint256) < nextTaskId demo_submitted"
    and nz: "agent (tasks demo_submitted 0) \<noteq> 0"
    by (simp_all add: demo_submitted_eq)
  have r: "run [Approve 1 0 True] demo_submitted = demo_approved"
    "exec (Approve 1 0 True) demo_submitted = demo_approved"
    by (simp_all add: demo_approved_run)
  have no_submit: "\<forall>a u. Approve 1 0 True \<noteq> Submit a 0 u"
    and no_approve: "\<forall>a b. Submit 3 0 ''http://b'' \<noteq> Approve a 0 b"
    by simp_all
  from task_fields_frame [where c = 2 and taskId = 0 and url = "''http://a''"
      and s = demo_created and s' = demo_submitted] demo_submit_ok
  have a: "getTask 0 demo_submitted =
       Inr ((tasks demo_created 0)\<lparr>agent := 2, submissionUrl := ''http://a'',
              isSubmitted := True\<rparr>)"
    by blast
  from task_fields_frame [where c = 1 and taskId = 0 and acc = True
      and s = demo_submitted and s' = demo_approved] demo_approve_ok
  have b: "getTask 0 demo_approved =
       Inr ((tasks demo_submitted 0)\<lparr>isApproved := True, isCompleted := True\<rparr>)"
    by blast
  from task_fields_frame [where s = "init_state demo_funds" and s' = demo_created
      and m = "\<lparr>msg_sender = 1, msg_value = 100\<rparr>" and descr = "''X''"] mk
  have c: "getTask (nextTaskId (init_state demo_funds)) demo_created =
        Inr \<lparr>task_id = nextTaskId (init_state demo_funds),
             employer = msg_sender \<lparr>msg_sender = 1, msg_value = 100\<rparr>, agent = 0,
             description = ''X'', reward = msg_value \<lparr>msg_sender = 1, msg_value = 100\<rparr>,
             submissionUrl = [], isSubmitted = False, isApproved = False,
             isCompleted = False\<rparr>"
    by blast
  from task_fields_frame [where taskId = 0 and s = demo_submitted
      and cs = "[Approve 1 0 True]" and op = "Approve 1 0 True"] lt nz no_submit
  have d: "getTask 0 demo_approved = Inr (tasks demo_approved 0)
      \<and> task_id (tasks demo_approved 0) = task_id (tasks demo_submitted 0)
      \<and> employer (tasks demo_approved 0) = employer (tasks demo_submitted 0)
      \<and> description (tasks demo_approved 0) = description (tasks demo_submitted 0)
      \<and> reward (tasks demo_approved 0) = reward (tasks demo_submitted 0)
      \<and> agent (tasks demo_approved 0) = agent (tasks demo_submitted 0)
      \<and> submissionUrl (tasks demo_approved 0) = submissionUrl (tasks demo_submitted 0)
      \<and> isSubmitted (tasks demo_approved 0) = isSubmitted (tasks demo_submitted 0)"
    unfolding r by blast
  from task_fields_frame [where taskId = 0 and s = demo_submitted
      and op = "Submit 3 0 ''http://b''"] lt no_approve
  have e: "isApproved (tasks (exec (Submit 3 0 ''http://b'') demo_submitted) 0)
       = isApproved (tasks demo_submitted 0)"
    by blast
  have v: "task_id (tasks demo_submitted 0) = 0" "employer (tasks demo_submitted 0) = 1"
    "description (tasks demo_submitted 0) = ''X''" "reward (tasks demo_submitted 0) = 100"
    "agent (tasks demo_submitted 0) = 2"
    "submissionUrl (tasks demo_submitted 0) = ''http://a''"
    by (simp_all add: demo_submitted_eq)
  have c': "getTask (nextTaskId (init_state demo_funds)) demo_created =
        Inr \<lparr>task_id = 0, employer = 1, agent = 0, description = ''X'', reward = 100,
             submissionUrl = [], isSubmitted = False, isApproved = False,
             isCompleted = False\<rparr>"
    using c by (simp add: init_state_def)
  show ?thesis
    using demo_submit_ok demo_approve_ok mk lt nz a b c' d e unfolding v by blast
qed

section \<open>C10: reading a slot that was never written\<close>

text \<open>
  C10. In every state reached from deployment, for an id that is not below
  \<open>getTotalTasks\<close>, \<open>getTask\<close> fails with \<open>TaskNotFound\<close> while the public getter
  \<open>tasks\<close> returns a record of zeros: numbers zero, addresses zero, strings empty,
  booleans false. The getter fails for no id and in no state.
\<close>

theorem tasks_getter_out_of_range:
  assumes "s = run cs (init_state b)" and "\<not> taskId < getTotalTasks s"
  shows "getTask taskId s = Inl TaskNotFound
    \<and> tasks_getter taskId s = Inr (0, 0, 0, [], 0, [], False, False, False)
    \<and> \<not> isl (tasks_getter i s0)"
proof -
  have "tasks s taskId = zero_Task"
    using assms(2) init_unwritten unfolding assms(1) getTotalTasks_def by blast
  then have "tasks_getter taskId s = Inr (0, 0, 0, [], 0, [], False, False, False)"
    by (simp add: tasks_getter_def zero_Task_def)
  moreover have "getTask taskId s = Inl TaskNotFound"
    using assms(2) by (simp add: getTask_def getTotalTasks_def)
  moreover have "\<not> isl (tasks_getter i s0)"
    by (simp add: tasks_getter_def Let_def)
  ultimately show ?thesis by blast
qed

theorem tasks_getter_out_of_range_witness:
  "demo_approved =
     run [demo_create, Submit 2 0 ''http://a'', Approve 1 0 True] (init_state demo_funds)
   \<and> \<not> (1::uint256) < getTotalTasks demo_approved
   \<and> getTask 1 demo_approved = Inl TaskNotFound
   \<and> tasks_getter 1 demo_approved = Inr (0, 0, 0, [], 0, [], False, False, False)
   \<and> tasks_getter 0 demo_approved =
       Inr (0, 1, 2, ''X'', 100, ''http://a'', True, True, True)"
proof -
  have h: "\<not> (1::uint256) < getTotalTasks demo_approved"
    by (simp add: demo_approved_eq getTotalTasks_def)
  have real: "tasks_getter 0 demo_approved =
       Inr (0, 1, 2, ''X'', 100, ''http://a'', True, True, True)"
    by (simp add: demo_approved_eq tasks_getter_def)
  from tasks_getter_out_of_range [OF demo_approved_def h] real demo_approved_def h
  show ?thesis by blast
qed

end
